theory Spec2Isabelle
  imports Main
begin

section \<open>SignalTrigger: the WebSocket ingestion client of nodes/Signal/SignalTrigger.node.ts\<close>

text \<open>
  The trigger keeps four variables in the closure of \<^verbatim>\<open>trigger\<close>: the set
  \<^verbatim>\<open>processedMessages\<close>, the connection \<^verbatim>\<open>ws\<close>, the timer handle
  \<^verbatim>\<open>reconnectTimeout\<close> and the flag \<^verbatim>\<open>isClosed\<close>. Every handler
  (\<^verbatim>\<open>open\<close>, \<^verbatim>\<open>message\<close>, \<^verbatim>\<open>error\<close>, \<^verbatim>\<open>close\<close>, the
  timer callback and \<^verbatim>\<open>closeFunction\<close>) runs to completion on the single JavaScript
  thread, so each one is a function from the state before to the state after.
\<close>

subsection \<open>Inbound frames\<close>

text \<open>
  The handler reads the parsed frame dynamically. The model gives the scalar fields that
  the handler reads the type the source assumes for them: the type of the default in
  \<^verbatim>\<open>x || d\<close> (a string, a number, a boolean), an object where the source reads a
  property of it, and a number for the timestamp, which the source casts with
  \<^verbatim>\<open>as number\<close>. Every field is optional: an absent field is \<open>None\<close>
  (JavaScript \<^verbatim>\<open>undefined\<close>). JavaScript numbers are modelled as unbounded
  integers. The sync marker is an arbitrary JSON value; the handler only tests it for
  truthiness.
\<close>

datatype json =
    JNull
  | JBool bool
  | JNum int
  | JStr string
  | JArr "json list"
  | JObj "(string \<times> json) list"

text \<open>
  The handler reads \<^verbatim>\<open>dataMessage.attachments\<close> and
  \<^verbatim>\<open>dataMessage.reaction\<close> without a test of their type, and all it does with
  them is \<^verbatim>\<open>x || []\<close> and \<^verbatim>\<open>x.length\<close>. What \<^verbatim>\<open>.length\<close> answers depends
  on the kind of value, so these two fields hold any kind: an array (its length is the
  number of elements), a string (its length is the number of characters; the handler only
  compares it with 0), a number or a
  boolean (no \<^verbatim>\<open>length\<close>: \<^verbatim>\<open>undefined\<close>), \<^verbatim>\<open>null\<close>, or an object, whose
  \<^verbatim>\<open>length\<close> is its own property of that name when it has one and
  \<^verbatim>\<open>undefined\<close> otherwise. An object is given by its \<^verbatim>\<open>length\<close> property and
  its other properties. The model covers a \<^verbatim>\<open>length\<close> property that is absent,
  \<^verbatim>\<open>null\<close>, a boolean or a number; one that is a string, an array or an object is
  outside the model (comparing it with 0 would run the string-to-number conversion).
\<close>

datatype js_length =
    length_undefined
  | length_null
  | length_bool bool
  | length_number int

datatype js_value =
    VArray "json list"
  | VString string
  | VObject js_length "(string \<times> json) list"
  | VNumber int
  | VBool bool
  | VNull

record raw_groupInfo =
  gi_groupId :: "string option"
  gi_groupName :: "string option"

record raw_dataMessage =
  dm_message :: "string option"
  dm_attachments :: "js_value option"
  dm_reaction :: "js_value option"
  dm_groupInfo :: "raw_groupInfo option"

record raw_envelope =
  env_timestamp :: "int option"
  env_sourceDevice :: "int option"
  env_sourceName :: "string option"
  env_sourceUuid :: "string option"
  env_hasContent :: "bool option"
  env_isUnidentifiedSender :: "bool option"
  env_syncMessage :: "json option"
  env_dataMessage :: "raw_dataMessage option"

record raw_message =
  msg_account :: "string option"
  msg_envelope :: "raw_envelope option"

text \<open>
  The outcome of \<^verbatim>\<open>JSON.parse(data.toString())\<close>: it throws on a frame that is not
  JSON; it returns \<^verbatim>\<open>null\<close> for the JSON text \<^verbatim>\<open>null\<close>, and then reading
  \<^verbatim>\<open>message.envelope\<close> throws a TypeError inside the same \<^verbatim>\<open>try\<close>; otherwise it
  returns a value whose \<^verbatim>\<open>envelope\<close> property is read (absent on a value that is not
  an object).
\<close>

datatype frame =
    Malformed
  | JsonNull
  | Parsed raw_message

subsection \<open>The normalized event\<close>

datatype messageType = incoming | outgoing

record processedMessage =
  messageText :: string
  attachments :: js_value
  reactions :: js_value
  sourceDevice :: int
  sourceName :: string
  sourceUuid :: string
  groupInternalId :: string
  groupName :: string
  timestamp :: "int option"
  account :: string
  hasContent :: bool
  isUnidentifiedSender :: bool
  messageType :: messageType
  envelope :: raw_envelope

text \<open>
  \<^verbatim>\<open>x || d\<close> on an optional field: an absent field gives the default. The defaults of
  the source (\<^verbatim>\<open>''\<close>, \<^verbatim>\<open>0\<close>, \<^verbatim>\<open>false\<close>) are exactly the falsy values of their
  types, so a present falsy value gives the same result as the default; an array is always
  truthy.
\<close>

definition or_default :: "'a option \<Rightarrow> 'a \<Rightarrow> 'a" where
  "or_default x d = (case x of None \<Rightarrow> d | Some v \<Rightarrow> v)"

text \<open>JavaScript truthiness of a JSON value.\<close>

fun truthy :: "json \<Rightarrow> bool" where
  "truthy JNull = False"
| "truthy (JBool b) = b"
| "truthy (JNum n) = (n \<noteq> 0)"
| "truthy (JStr s) = (s \<noteq> [])"
| "truthy (JArr _) = True"
| "truthy (JObj _) = True"

fun truthy_value :: "js_value \<Rightarrow> bool" where
  "truthy_value (VArray _) = True"
| "truthy_value (VString s) = (s \<noteq> [])"
| "truthy_value (VObject _ _) = True"
| "truthy_value (VNumber n) = (n \<noteq> 0)"
| "truthy_value (VBool b) = b"
| "truthy_value VNull = False"

text \<open>\<^verbatim>\<open>x || []\<close>: an absent or falsy value gives the empty array.\<close>

definition or_empty_array :: "js_value option \<Rightarrow> js_value" where
  "or_empty_array x =
     (case x of None \<Rightarrow> VArray [] | Some v \<Rightarrow> if truthy_value v then v else VArray [])"

text \<open>
  \<^verbatim>\<open>v.length\<close>. The handler reads it only after \<^verbatim>\<open>x || []\<close>, so never on
  \<^verbatim>\<open>null\<close>.
\<close>

fun js_length_of :: "js_value \<Rightarrow> js_length" where
  "js_length_of (VArray xs) = length_number (int (length xs))"
| "js_length_of (VString s) = length_number (int (length s))"
| "js_length_of (VObject l _) = l"
| "js_length_of (VNumber _) = length_undefined"
| "js_length_of (VBool _) = length_undefined"
| "js_length_of VNull = length_undefined"

text \<open>
  \<^verbatim>\<open>l === 0\<close> holds for the number 0 only. \<^verbatim>\<open>l > 0\<close> converts \<open>l\<close> to a
  number first: \<^verbatim>\<open>undefined\<close> becomes NaN, which is not greater than anything,
  \<^verbatim>\<open>null\<close> and \<^verbatim>\<open>false\<close> become 0, and \<^verbatim>\<open>true\<close> becomes 1.
\<close>

fun strictly_equals_zero :: "js_length \<Rightarrow> bool" where
  "strictly_equals_zero (length_number n) = (n = 0)"
| "strictly_equals_zero _ = False"

fun greater_than_zero :: "js_length \<Rightarrow> bool" where
  "greater_than_zero length_undefined = False"
| "greater_than_zero length_null = False"
| "greater_than_zero (length_bool b) = b"
| "greater_than_zero (length_number n) = (n > 0)"

text \<open>\<^verbatim>\<open>a?.f\<close>: the field of an optional object.\<close>

definition opt_chain :: "'a option \<Rightarrow> ('a \<Rightarrow> 'b option) \<Rightarrow> 'b option" where
  "opt_chain x f = (case x of None \<Rightarrow> None | Some v \<Rightarrow> f v)"

definition make_processedMessage :: "raw_message \<Rightarrow> raw_envelope \<Rightarrow> processedMessage" where
  "make_processedMessage m e =
     \<lparr> messageText = or_default (opt_chain (env_dataMessage e) dm_message) [],
       attachments = or_empty_array (opt_chain (env_dataMessage e) dm_attachments),
       reactions = or_empty_array (opt_chain (env_dataMessage e) dm_reaction),
       sourceDevice = or_default (env_sourceDevice e) 0,
       sourceName = or_default (env_sourceName e) [],
       sourceUuid = or_default (env_sourceUuid e) [],
       groupInternalId =
         or_default (opt_chain (opt_chain (env_dataMessage e) dm_groupInfo) gi_groupId) [],
       groupName =
         or_default (opt_chain (opt_chain (env_dataMessage e) dm_groupInfo) gi_groupName) [],
       timestamp = env_timestamp e,
       account = or_default (msg_account m) [],
       hasContent = or_default (env_hasContent e) False,
       isUnidentifiedSender = or_default (env_isUnidentifiedSender e) False,
       messageType =
         (case env_syncMessage e of
            None \<Rightarrow> incoming
          | Some v \<Rightarrow> if truthy v then outgoing else incoming),
       envelope = e \<rparr>"

subsection \<open>Configuration\<close>

record config =
  reconnectDelay :: int
  ignoreMessages :: bool
  ignoreAttachments :: bool
  ignoreReactions :: bool

text \<open>The node parameters as \<^verbatim>\<open>trigger\<close> reads them: the delay is given in seconds.\<close>

definition read_config :: "int \<Rightarrow> bool \<Rightarrow> bool \<Rightarrow> bool \<Rightarrow> config" where
  "read_config seconds im ia ir =
     \<lparr> reconnectDelay = seconds * 1000, ignoreMessages = im,
       ignoreAttachments = ia, ignoreReactions = ir \<rparr>"

text \<open>The two filters of the message handler, in the source's order.\<close>

definition is_empty_message :: "processedMessage \<Rightarrow> bool" where
  "is_empty_message ev \<longleftrightarrow>
     messageText ev = []
     \<and> strictly_equals_zero (js_length_of (attachments ev))
     \<and> strictly_equals_zero (js_length_of (reactions ev))"

definition is_ignored :: "config \<Rightarrow> processedMessage \<Rightarrow> bool" where
  "is_ignored cfg ev \<longleftrightarrow>
     (ignoreMessages cfg \<and> messageText ev \<noteq> []) \<or>
     (ignoreAttachments cfg \<and> greater_than_zero (js_length_of (attachments ev))) \<or>
     (ignoreReactions cfg \<and> greater_than_zero (js_length_of (reactions ev)))"

subsection \<open>The dedup window: a JavaScript Set in insertion order\<close>

text \<open>
  The keys are the timestamps as read from the frame: a number, or \<open>None\<close> for
  \<^verbatim>\<open>undefined\<close>. \<^verbatim>\<open>Math.min\<close> converts each argument with ToNumber
  (\<^verbatim>\<open>undefined\<close> becomes NaN), answers NaN as soon as one argument is NaN, and
  \<^verbatim>\<open>Infinity\<close> for no argument.
\<close>

datatype js_number = NaN | Infinity | Finite int

definition maxMessages :: nat where
  "maxMessages = 1000"

definition Set_has :: "int option list \<Rightarrow> int option \<Rightarrow> bool" where
  "Set_has w t \<longleftrightarrow> t \<in> set w"

definition Set_add :: "int option list \<Rightarrow> int option \<Rightarrow> int option list" where
  "Set_add w t = (if t \<in> set w then w else w @ [t])"

fun ToNumber :: "int option \<Rightarrow> js_number" where
  "ToNumber None = NaN"
| "ToNumber (Some n) = Finite n"

fun js_min :: "js_number \<Rightarrow> js_number \<Rightarrow> js_number" where
  "js_min NaN _ = NaN"
| "js_min _ NaN = NaN"
| "js_min Infinity y = y"
| "js_min x Infinity = x"
| "js_min (Finite a) (Finite b) = Finite (min a b)"

fun Math_min :: "int option list \<Rightarrow> js_number" where
  "Math_min [] = Infinity"
| "Math_min (x # xs) = js_min (ToNumber x) (Math_min xs)"

text \<open>
  \<^verbatim>\<open>Set.prototype.delete\<close> removes the key equal to its argument. No key of the
  window is NaN or Infinity, so deleting one of those removes nothing.
\<close>

fun Set_delete :: "int option list \<Rightarrow> js_number \<Rightarrow> int option list" where
  "Set_delete w (Finite n) = removeAll (Some n) w"
| "Set_delete w _ = w"

text \<open>Lines 111 to 115: add the timestamp, then evict when the size exceeds the bound.\<close>

definition record_timestamp :: "int option list \<Rightarrow> int option \<Rightarrow> int option list" where
  "record_timestamp w t =
     (let w1 = Set_add w t
      in if length w1 > maxMessages then Set_delete w1 (Math_min w1) else w1)"

subsection \<open>State, effects and the runtime\<close>

text \<open>
  Sockets and timers belong to the runtime. A socket is named by the order of its
  creation and has a ready state; a timer is named by the order of its creation and is
  pending until it fires or is cleared. Every timer of this program has the callback
  \<^verbatim>\<open>connectWebSocket\<close>.
\<close>

datatype ready_state = CONNECTING | OPEN | CLOSING | CLOSED

datatype log_message =
    AttemptingToConnect
  | SkippingReconnect
  | ConnectionOpened
  | DuplicateMessage "int option"
  | ProcessedContent processedMessage
  | SkippingEmpty "int option"
  | IgnoringDueToFilter "int option"
  | EmittedMessage "int option"
  | ErrorParsing
  | WebSocketError
  | WebSocketClosed
  | ReconnectionStopped

datatype effect =
    LogDebug log_message
  | LogError log_message
  | Emit processedMessage
  | NewWebSocket nat
  | SetTimeout nat int
  | ClearTimeout nat
  | WsClose nat

text \<open>
  The trace lists the effects in the order they happen; each entry also records the value
  that \<^verbatim>\<open>isClosed\<close> had at that moment.
\<close>

record state =
  processedMessages :: "int option list"
  ws :: "nat option"
  reconnectTimeout :: "nat option"
  isClosed :: bool
  sockets :: "ready_state list"
  timers :: "nat list"
  nextTimer :: nat
  trace :: "(bool \<times> effect) list"

definition perform :: "effect \<Rightarrow> state \<Rightarrow> state" where
  "perform e s = s\<lparr>trace := trace s @ [(isClosed s, e)]\<rparr>"

fun emitted_of :: "(bool \<times> effect) list \<Rightarrow> processedMessage list" where
  "emitted_of [] = []"
| "emitted_of ((_, Emit ev) # xs) = ev # emitted_of xs"
| "emitted_of (_ # xs) = emitted_of xs"

definition emitted :: "state \<Rightarrow> processedMessage list" where
  "emitted s = emitted_of (trace s)"

fun is_connect :: "bool \<times> effect \<Rightarrow> bool" where
  "is_connect (_, NewWebSocket _) = True"
| "is_connect _ = False"

fun is_schedule :: "bool \<times> effect \<Rightarrow> bool" where
  "is_schedule (_, SetTimeout _ _) = True"
| "is_schedule _ = False"

text \<open>The effects that happened after the trace had length \<open>n\<close>.\<close>

definition effects_since :: "nat \<Rightarrow> state \<Rightarrow> (bool \<times> effect) list" where
  "effects_since n s = drop n (trace s)"

subsection \<open>The handlers\<close>

text \<open>
  Lines 85 to 93: nothing but a log line when the flag is set; otherwise a new socket,
  with the four handlers below, stored in \<^verbatim>\<open>ws\<close>.
\<close>

definition connectWebSocket :: "config \<Rightarrow> state \<Rightarrow> state" where
  "connectWebSocket cfg s =
     (if isClosed s then perform (LogDebug SkippingReconnect) s
      else let c = length (sockets s)
           in (perform (NewWebSocket c) (s\<lparr>sockets := sockets s @ [CONNECTING]\<rparr>))
                \<lparr>ws := Some c\<rparr>)"

text \<open>Lines 95 to 97.\<close>

definition on_open :: "state \<Rightarrow> state" where
  "on_open s = perform (LogDebug ConnectionOpened) s"

text \<open>
  Lines 99 to 162. Everything is inside one \<^verbatim>\<open>try\<close>, whose
  \<^verbatim>\<open>catch\<close> logs an error. A frame without a truthy \<^verbatim>\<open>envelope\<close> is
  ignored without a log line. Otherwise the timestamp is looked up in the set and
  recorded there first; the event is built, and the two filters run after that.
\<close>

definition on_message :: "config \<Rightarrow> frame \<Rightarrow> state \<Rightarrow> state" where
  "on_message cfg f s =
     (case f of
        Malformed \<Rightarrow> perform (LogError ErrorParsing) s
      | JsonNull \<Rightarrow> perform (LogError ErrorParsing) s
      | Parsed m \<Rightarrow>
          (case msg_envelope m of
             None \<Rightarrow> s
           | Some e \<Rightarrow>
               (let t = env_timestamp e
                in if Set_has (processedMessages s) t
                   then perform (LogDebug (DuplicateMessage t)) s
                   else
                     let s1 = s\<lparr>processedMessages := record_timestamp (processedMessages s) t\<rparr>;
                         ev = make_processedMessage m e;
                         s2 = perform (LogDebug (ProcessedContent ev)) s1
                     in if is_empty_message ev
                        then perform (LogDebug (SkippingEmpty t)) s2
                        else if is_ignored cfg ev
                        then perform (LogDebug (IgnoringDueToFilter t)) s2
                        else perform (LogDebug (EmittedMessage t)) (perform (Emit ev) s2))))"

text \<open>
  Lines 166 to 168 and 173 to 175, the same statement in both handlers: unless the flag
  is set, a new timer is created and its handle overwrites \<^verbatim>\<open>reconnectTimeout\<close>.
  The timer whose handle was there before is not cleared.
\<close>

definition schedule_reconnect :: "config \<Rightarrow> state \<Rightarrow> state" where
  "schedule_reconnect cfg s =
     (if \<not> isClosed s
      then let k = nextTimer s
           in (perform (SetTimeout k (reconnectDelay cfg))
                 (s\<lparr>timers := timers s @ [k], nextTimer := Suc k\<rparr>))
                \<lparr>reconnectTimeout := Some k\<rparr>
      else s)"

definition on_error :: "config \<Rightarrow> state \<Rightarrow> state" where
  "on_error cfg s = schedule_reconnect cfg (perform (LogError WebSocketError) s)"

definition on_close :: "config \<Rightarrow> state \<Rightarrow> state" where
  "on_close cfg s = schedule_reconnect cfg (perform (LogDebug WebSocketClosed) s)"

text \<open>
  \<^verbatim>\<open>ws.close()\<close> starts the closing handshake: the socket is CLOSING until its
  \<^verbatim>\<open>close\<close> event, and frames that arrive meanwhile are still delivered.
\<close>

definition socket_close :: "nat \<Rightarrow> ready_state list \<Rightarrow> ready_state list" where
  "socket_close c ss =
     (if c < length ss \<and> ss ! c \<noteq> CLOSED then ss[c := CLOSING] else ss)"

text \<open>Lines 182 to 193, statement by statement.\<close>

definition closeFunction :: "state \<Rightarrow> state" where
  "closeFunction s =
     (let s1 = s\<lparr>isClosed := True\<rparr>;
          s2 = (case reconnectTimeout s1 of
                  None \<Rightarrow> s1
                | Some k \<Rightarrow>
                    (perform (ClearTimeout k) (s1\<lparr>timers := removeAll k (timers s1)\<rparr>))
                      \<lparr>reconnectTimeout := None\<rparr>);
          s3 = (case ws s2 of
                  None \<Rightarrow> s2
                | Some c \<Rightarrow>
                    (perform (WsClose c) (s2\<lparr>sockets := socket_close c (sockets s2)\<rparr>))
                      \<lparr>ws := None\<rparr>)
      in perform (LogDebug ReconnectionStopped) s3)"

definition initial :: state where
  "initial =
     \<lparr> processedMessages = [], ws = None, reconnectTimeout = None, isClosed = False,
       sockets = [], timers = [], nextTimer = 0, trace = [] \<rparr>"

text \<open>Lines 77 to 83 and 179: the first connection attempt.\<close>

definition trigger :: "config \<Rightarrow> state" where
  "trigger cfg = connectWebSocket cfg (perform (LogDebug AttemptingToConnect) initial)"

subsection \<open>Events\<close>

text \<open>
  What the runtime can deliver: a socket that is CONNECTING opens; a socket that is OPEN
  or CLOSING delivers a frame; a socket that is not CLOSED reports an error (and is then
  CLOSING) or closes; a pending timer fires; the host calls \<^verbatim>\<open>closeFunction\<close>. An
  event that the runtime cannot deliver in a state leaves the state as it is.
\<close>

datatype event =
    Opened nat
  | Frame nat frame
  | Errored nat
  | Closed nat
  | TimerFired nat
  | StopRequested

definition socket_is :: "state \<Rightarrow> nat \<Rightarrow> ready_state \<Rightarrow> bool" where
  "socket_is s c r \<longleftrightarrow> c < length (sockets s) \<and> sockets s ! c = r"

fun enabled :: "state \<Rightarrow> event \<Rightarrow> bool" where
  "enabled s (Opened c) = socket_is s c CONNECTING"
| "enabled s (Frame c f) = (socket_is s c OPEN \<or> socket_is s c CLOSING)"
| "enabled s (Errored c) = (c < length (sockets s) \<and> sockets s ! c \<noteq> CLOSED)"
| "enabled s (Closed c) = (c < length (sockets s) \<and> sockets s ! c \<noteq> CLOSED)"
| "enabled s (TimerFired k) = (k \<in> set (timers s))"
| "enabled s StopRequested = True"

fun fire :: "config \<Rightarrow> state \<Rightarrow> event \<Rightarrow> state" where
  "fire cfg s (Opened c) = on_open (s\<lparr>sockets := (sockets s)[c := OPEN]\<rparr>)"
| "fire cfg s (Frame c f) = on_message cfg f s"
| "fire cfg s (Errored c) = on_error cfg (s\<lparr>sockets := (sockets s)[c := CLOSING]\<rparr>)"
| "fire cfg s (Closed c) = on_close cfg (s\<lparr>sockets := (sockets s)[c := CLOSED]\<rparr>)"
| "fire cfg s (TimerFired k) = connectWebSocket cfg (s\<lparr>timers := removeAll k (timers s)\<rparr>)"
| "fire cfg s StopRequested = closeFunction s"

definition step :: "config \<Rightarrow> state \<Rightarrow> event \<Rightarrow> state" where
  "step cfg s e = (if enabled s e then fire cfg s e else s)"

definition run :: "config \<Rightarrow> state \<Rightarrow> event list \<Rightarrow> state" where
  "run cfg s es = foldl (step cfg) s es"

text \<open>The event filter as one predicate: the frame is neither empty nor ignored.\<close>

definition passes :: "config \<Rightarrow> processedMessage \<Rightarrow> bool" where
  "passes cfg ev \<longleftrightarrow> \<not> is_empty_message ev \<and> \<not> is_ignored cfg ev"

subsection \<open>Sample inputs\<close>

definition default_config :: config where
  "default_config = read_config 5 False False False"

definition blank_envelope :: raw_envelope where
  "blank_envelope =
     \<lparr> env_timestamp = None, env_sourceDevice = None, env_sourceName = None,
       env_sourceUuid = None, env_hasContent = None, env_isUnidentifiedSender = None,
       env_syncMessage = None, env_dataMessage = None \<rparr>"

definition text_envelope :: "int option \<Rightarrow> string \<Rightarrow> raw_envelope" where
  "text_envelope t txt =
     blank_envelope
       \<lparr> env_timestamp := t,
         env_dataMessage := Some \<lparr> dm_message = Some txt, dm_attachments = None,
                                   dm_reaction = None, dm_groupInfo = None \<rparr> \<rparr>"

definition text_message :: "int option \<Rightarrow> string \<Rightarrow> raw_message" where
  "text_message t txt = \<lparr> msg_account = None, msg_envelope = Some (text_envelope t txt) \<rparr>"

text \<open>
  A frame whose only content is a reaction. \<open>reaction_object\<close> is a reaction as an
  object with four properties and no \<^verbatim>\<open>length\<close>.
\<close>

definition reaction_envelope :: "int option \<Rightarrow> js_value \<Rightarrow> raw_envelope" where
  "reaction_envelope t r =
     blank_envelope
       \<lparr> env_timestamp := t,
         env_dataMessage := Some \<lparr> dm_message = None, dm_attachments = None,
                                   dm_reaction = Some r, dm_groupInfo = None \<rparr> \<rparr>"

definition reaction_message :: "int option \<Rightarrow> js_value \<Rightarrow> raw_message" where
  "reaction_message t r = \<lparr> msg_account = None, msg_envelope = Some (reaction_envelope t r) \<rparr>"

definition reaction_object :: js_value where
  "reaction_object =
     VObject length_undefined
       [(''emoji'', JStr ''+''), (''targetAuthor'', JStr ''+15550100''),
        (''targetSentTimestamp'', JNum 7), (''isRemove'', JBool False)]"

definition ignore_reactions_config :: config where
  "ignore_reactions_config = read_config 5 False False True"

subsection \<open>Predicates and inputs used in the statements\<close>

text \<open>
  After \<^verbatim>\<open>closeFunction\<close>: the flag is set and both slots are empty.
\<close>

definition stopped :: "state \<Rightarrow> bool" where
  "stopped s \<longleftrightarrow> isClosed s \<and> ws s = None \<and> reconnectTimeout s = None"

text \<open>A parsed frame with an envelope whose timestamp is the number \<open>t\<close>.\<close>

definition carries :: "raw_message \<Rightarrow> int \<Rightarrow> bool" where
  "carries m t \<longleftrightarrow>
     (case msg_envelope m of None \<Rightarrow> False | Some e \<Rightarrow> env_timestamp e = Some t)"

text \<open>The frames of a list of parsed messages, delivered on one socket.\<close>

definition frames :: "nat \<Rightarrow> raw_message list \<Rightarrow> event list" where
  "frames c ms = map (\<lambda>m. Frame c (Parsed m)) ms"

text \<open>
  An event whose frame, when it has an envelope, has a number as its timestamp. Every
  event that is not a parsed frame qualifies.
\<close>

fun numeric_timestamp :: "event \<Rightarrow> bool" where
  "numeric_timestamp (Frame c (Parsed m)) =
     (case msg_envelope m of None \<Rightarrow> True | Some e \<Rightarrow> env_timestamp e \<noteq> None)"
| "numeric_timestamp _ = True"

definition thousand_messages :: "raw_message list" where
  "thousand_messages = map (\<lambda>t. text_message (Some t) ''hi'') [1..1000]"

definition thousand_and_one_messages :: "raw_message list" where
  "thousand_and_one_messages = map (\<lambda>t. text_message (Some t) ''hi'') [1..1001]"

text \<open>The trigger after its first socket has opened.\<close>

definition connected :: state where
  "connected = run default_config (trigger default_config) [Opened 0]"

text \<open>The connected trigger after a thousand text frames with the timestamps 1 to 1000.\<close>

definition full_window :: state where
  "full_window = run default_config (trigger default_config) (Opened 0 # frames 0 thousand_messages)"

text \<open>A frame without a timestamp, then the thousand frames.\<close>

definition undefined_then_thousand :: "event list" where
  "undefined_then_thousand =
     Opened 0 # Frame 0 (Parsed (text_message None ''hi'')) # frames 0 thousand_messages"

text \<open>The first socket opens and then reports an error: one reconnect timer is pending.\<close>

definition failing_connection :: state where
  "failing_connection = run default_config (trigger default_config) [Opened 0, Errored 0]"

section \<open>Properties\<close>


subsection \<open>Effects and fields\<close>

lemma emitted_of_append: "emitted_of (xs @ ys) = emitted_of xs @ emitted_of ys"
  by (induction xs rule: emitted_of.induct) simp_all

lemma perform_fields [simp]:
  "processedMessages (perform e s) = processedMessages s"
  "ws (perform e s) = ws s"
  "reconnectTimeout (perform e s) = reconnectTimeout s"
  "isClosed (perform e s) = isClosed s"
  "sockets (perform e s) = sockets s"
  "timers (perform e s) = timers s"
  "nextTimer (perform e s) = nextTimer s"
  "trace (perform e s) = trace s @ [(isClosed s, e)]"
  by (simp_all add: perform_def)

lemma emitted_perform_Emit [simp]: "emitted (perform (Emit ev) s) = emitted s @ [ev]"
  by (simp add: emitted_def emitted_of_append)

lemma emitted_perform_other [simp]:
  "emitted (perform (LogDebug l) s) = emitted s"
  "emitted (perform (LogError l) s) = emitted s"
  "emitted (perform (NewWebSocket c) s) = emitted s"
  "emitted (perform (SetTimeout k d) s) = emitted s"
  "emitted (perform (ClearTimeout k) s) = emitted s"
  "emitted (perform (WsClose c) s) = emitted s"
  by (simp_all add: emitted_def emitted_of_append)

lemma emitted_update [simp]:
  "emitted (s\<lparr>processedMessages := w\<rparr>) = emitted s"
  "emitted (s\<lparr>ws := x\<rparr>) = emitted s"
  "emitted (s\<lparr>reconnectTimeout := y\<rparr>) = emitted s"
  "emitted (s\<lparr>isClosed := b\<rparr>) = emitted s"
  "emitted (s\<lparr>sockets := ss\<rparr>) = emitted s"
  "emitted (s\<lparr>timers := ks\<rparr>) = emitted s"
  "emitted (s\<lparr>nextTimer := n\<rparr>) = emitted s"
  by (simp_all add: emitted_def)

lemmas sample_defs =
  default_config_def read_config_def blank_envelope_def text_envelope_def text_message_def
  reaction_envelope_def reaction_message_def reaction_object_def ignore_reactions_config_def
  initial_def

lemmas filter_defs =
  make_processedMessage_def or_default_def or_empty_array_def opt_chain_def
  is_empty_message_def is_ignored_def passes_def

lemmas window_defs =
  Set_has_def Set_add_def record_timestamp_def maxMessages_def

subsection \<open>The message handler\<close>

lemma on_message_window:
  "msg_envelope m = Some e \<Longrightarrow>
   processedMessages (on_message cfg (Parsed m) s) =
     (if Set_has (processedMessages s) (env_timestamp e) then processedMessages s
      else record_timestamp (processedMessages s) (env_timestamp e))"
  by (simp add: on_message_def Let_def)

lemma on_message_emitted:
  "msg_envelope m = Some e \<Longrightarrow>
   emitted (on_message cfg (Parsed m) s) =
     emitted s @
       (if \<not> Set_has (processedMessages s) (env_timestamp e)
           \<and> passes cfg (make_processedMessage m e)
        then [make_processedMessage m e] else [])"
  by (simp add: on_message_def Let_def passes_def)

lemma on_message_no_envelope: "msg_envelope m = None \<Longrightarrow> on_message cfg (Parsed m) s = s"
  by (simp add: on_message_def)

lemma on_message_fields [simp]:
  "ws (on_message cfg f s) = ws s"
  "reconnectTimeout (on_message cfg f s) = reconnectTimeout s"
  "isClosed (on_message cfg f s) = isClosed s"
  "sockets (on_message cfg f s) = sockets s"
  "timers (on_message cfg f s) = timers s"
  "nextTimer (on_message cfg f s) = nextTimer s"
  by (simp_all add: on_message_def Let_def split: frame.splits option.splits)

text \<open>
  C1, as the code has it. For a parsed frame with an envelope the dedup window comes
  first: a timestamp already in the window ends the handling with the window as it was
  and nothing emitted; otherwise the timestamp is recorded, whatever the filters decide
  afterwards, and the event is emitted exactly when it is neither empty nor ignored.
\<close>

theorem C1_dedup_runs_before_filter:
  assumes "msg_envelope m = Some e"
  shows "processedMessages (on_message cfg (Parsed m) s) =
           (if Set_has (processedMessages s) (env_timestamp e) then processedMessages s
            else record_timestamp (processedMessages s) (env_timestamp e))
         \<and> emitted (on_message cfg (Parsed m) s) =
             emitted s @
               (if \<not> Set_has (processedMessages s) (env_timestamp e)
                   \<and> \<not> is_empty_message (make_processedMessage m e)
                   \<and> \<not> is_ignored cfg (make_processedMessage m e)
                then [make_processedMessage m e] else [])"
  using assms by (simp add: on_message_window on_message_emitted passes_def)

theorem C1_dedup_runs_before_filter_witness:
  "msg_envelope (text_message (Some 5) []) = Some (text_envelope (Some 5) [])
   \<and> processedMessages (on_message default_config (Parsed (text_message (Some 5) [])) initial)
       = [Some 5]
   \<and> emitted (on_message default_config (Parsed (text_message (Some 5) [])) initial) = []"
  using C1_dedup_runs_before_filter
    [of "text_message (Some 5) []" "text_envelope (Some 5) []" default_config initial]
  by (simp add: sample_defs filter_defs window_defs emitted_def)

text \<open>
  C1 as the specification words it fails: an empty frame is dropped by the filter, and yet
  handling it changes the dedup window.
\<close>

theorem C1_counterexample:
  "msg_envelope (text_message (Some 5) []) = Some (text_envelope (Some 5) [])
   \<and> is_empty_message
       (make_processedMessage (text_message (Some 5) []) (text_envelope (Some 5) []))
   \<and> processedMessages initial = []
   \<and> processedMessages (on_message default_config (Parsed (text_message (Some 5) [])) initial)
       \<noteq> processedMessages initial"
  by (simp add: on_message_window sample_defs filter_defs window_defs)

text \<open>
  C7. A frame with an envelope whose normalized event has an empty text, no attachments
  and no reactions is never emitted, whatever the configuration and the state.
\<close>

theorem C7_empty_content_dropped:
  assumes "msg_envelope m = Some e"
    and "messageText (make_processedMessage m e) = []"
    and "attachments (make_processedMessage m e) = VArray []"
    and "reactions (make_processedMessage m e) = VArray []"
  shows "emitted (on_message cfg (Parsed m) s) = emitted s"
  using assms by (simp add: on_message_emitted passes_def is_empty_message_def)

theorem C7_empty_content_dropped_witness:
  "msg_envelope (text_message (Some 7) []) = Some (text_envelope (Some 7) [])
   \<and> messageText (make_processedMessage (text_message (Some 7) []) (text_envelope (Some 7) []))
       = []
   \<and> attachments (make_processedMessage (text_message (Some 7) []) (text_envelope (Some 7) []))
       = VArray []
   \<and> reactions (make_processedMessage (text_message (Some 7) []) (text_envelope (Some 7) []))
       = VArray []
   \<and> emitted (on_message default_config (Parsed (text_message (Some 7) [])) initial)
       = emitted initial"
  using C7_empty_content_dropped
    [of "text_message (Some 7) []" "text_envelope (Some 7) []" default_config initial]
  by (simp add: sample_defs filter_defs)

text \<open>
  Each of the three ignore settings drops the frame on its own when its test succeeds:
  a non-empty text, or a \<^verbatim>\<open>length\<close> of the attachments or of the reactions that
  is greater than 0, as it is for a non-empty array.
\<close>

lemma ignore_filter_drops_when_its_test_succeeds:
  assumes "msg_envelope m = Some e"
    and "(ignoreMessages cfg \<and> messageText (make_processedMessage m e) \<noteq> [])
         \<or> (ignoreAttachments cfg
              \<and> greater_than_zero (js_length_of (attachments (make_processedMessage m e))))
         \<or> (ignoreReactions cfg
              \<and> greater_than_zero (js_length_of (reactions (make_processedMessage m e))))"
  shows "emitted (on_message cfg (Parsed m) s) = emitted s"
  using assms by (auto simp add: on_message_emitted passes_def is_ignored_def)

text \<open>
  C8 at a reaction that is an object. With \<^verbatim>\<open>ignoreReactions\<close> set, a frame whose
  reaction is a one-element array is dropped. A frame whose reaction is an object is
  emitted: the object has no \<^verbatim>\<open>length\<close>, so \<^verbatim>\<open>reactions.length === 0\<close> is
  false and the frame is not empty, and \<^verbatim>\<open>reactions.length > 0\<close> is false and the
  frame is not ignored.
\<close>

theorem C8_reaction_object_passes_ignoreReactions:
  "ignoreReactions ignore_reactions_config
   \<and> emitted (on_message ignore_reactions_config
        (Parsed (reaction_message (Some 8) (VArray [JStr ''+'']))) initial) = []
   \<and> reactions (make_processedMessage (reaction_message (Some 8) reaction_object)
        (reaction_envelope (Some 8) reaction_object)) = reaction_object
   \<and> emitted (on_message ignore_reactions_config
        (Parsed (reaction_message (Some 8) reaction_object)) initial)
       = [make_processedMessage (reaction_message (Some 8) reaction_object)
            (reaction_envelope (Some 8) reaction_object)]"
  by (simp add: on_message_def Let_def perform_def sample_defs filter_defs window_defs
        emitted_def)

subsection \<open>The dedup window\<close>

lemma js_min_NaN_right [simp]: "js_min x NaN = NaN"
  by (cases x) simp_all

lemma Math_min_undefined: "None \<in> set w \<Longrightarrow> Math_min w = NaN"
  by (induction w) auto

lemma Math_min_numeric:
  "None \<notin> set w \<Longrightarrow> w \<noteq> [] \<Longrightarrow>
   \<exists>n. Math_min w = Finite n \<and> Some n \<in> set w \<and> (\<forall>k. Some k \<in> set w \<longrightarrow> n \<le> k)"
proof (induction w)
  case Nil
  then show ?case by simp
next
  case (Cons x w)
  from Cons.prems obtain a where x: "x = Some a" by (cases x) auto
  show ?case
  proof (cases "w = []")
    case True
    with x show ?thesis by simp
  next
    case False
    with Cons obtain n where n: "Math_min w = Finite n" "Some n \<in> set w"
      "\<forall>k. Some k \<in> set w \<longrightarrow> n \<le> k" by auto
    with x show ?thesis by (auto simp: min_def)
  qed
qed

lemma Math_min_is_Min:
  assumes "ts \<noteq> []"
  shows "Math_min (map Some ts) = Finite (Min (set ts))"
proof -
  have "None \<notin> set (map Some ts)" "map Some ts \<noteq> []"
    using assms by auto
  from Math_min_numeric [OF this] obtain n where
    n: "Math_min (map Some ts) = Finite n" "Some n \<in> set (map Some ts)"
       "\<forall>k. Some k \<in> set (map Some ts) \<longrightarrow> n \<le> k"
    by blast
  have "Min (set ts) = n"
    using n(2,3) by (intro Min_eqI) auto
  with n(1) show ?thesis by simp
qed

lemma undefined_stays: "None \<in> set w \<Longrightarrow> None \<in> set (record_timestamp w t)"
  by (cases "Math_min (Set_add w t)") (auto simp: record_timestamp_def Set_add_def Let_def)

lemma record_timestamp_with_undefined:
  "None \<in> set w \<Longrightarrow> record_timestamp w t = Set_add w t"
  by (simp add: record_timestamp_def Set_add_def Let_def Math_min_undefined)

lemma record_timestamp_below_bound:
  "length w < maxMessages \<Longrightarrow> record_timestamp w t = Set_add w t"
  by (simp add: record_timestamp_def Set_add_def Let_def)

lemma record_undefined: "record_timestamp w None = Set_add w None"
  by (simp add: record_timestamp_def Set_add_def Let_def Math_min_undefined)

lemma record_timestamp_appends:
  assumes "t \<notin> set w" and "length w < maxMessages \<or> None \<in> set w"
  shows "record_timestamp w t = w @ [t]"
  using assms
  by (auto simp: record_timestamp_with_undefined record_timestamp_below_bound Set_add_def)

lemma record_timestamp_bound:
  assumes "None \<notin> set w" and "length w \<le> maxMessages"
  shows "length (record_timestamp w (Some n)) \<le> maxMessages
         \<and> None \<notin> set (record_timestamp w (Some n))"
proof -
  let ?w1 = "Set_add w (Some n)"
  have w1: "None \<notin> set ?w1" "?w1 \<noteq> []" "length ?w1 \<le> Suc maxMessages"
    using assms by (auto simp: Set_add_def)
  show ?thesis
  proof (cases "length ?w1 > maxMessages")
    case False
    with w1 show ?thesis by (simp add: record_timestamp_def Let_def)
  next
    case True
    from Math_min_numeric [OF w1(1,2)] obtain k where
      k: "Math_min ?w1 = Finite k" "Some k \<in> set ?w1" by blast
    have "length (removeAll (Some k) ?w1) < length ?w1"
      using k(2) by (rule length_removeAll_less)
    with True k w1 show ?thesis by (simp add: record_timestamp_def Let_def)
  qed
qed

lemma record_timestamp_evicts_minimum:
  assumes "distinct (ts @ [t])" and "length ts = maxMessages"
  shows "record_timestamp (map Some ts) (Some t)
           = removeAll (Some (Min (set (ts @ [t])))) (map Some (ts @ [t]))"
proof -
  have "Some t \<notin> set (map Some ts)" using assms(1) by auto
  then have add: "Set_add (map Some ts) (Some t) = map Some (ts @ [t])"
    by (simp add: Set_add_def)
  have "Math_min (map Some (ts @ [t])) = Finite (Min (set (ts @ [t])))"
    by (rule Math_min_is_Min) simp
  with add assms(2) show ?thesis
    by (simp add: record_timestamp_def Let_def del: map_append)
qed

lemma record_timestamp_keeps:
  assumes "length w < maxMessages \<or> (\<exists>u. Some u \<in> set w \<and> u < t)"
  shows "Some t \<in> set (record_timestamp w (Some t))"
proof -
  let ?w1 = "Set_add w (Some t)"
  have in1: "Some t \<in> set ?w1" by (simp add: Set_add_def)
  show ?thesis
  proof (cases "length ?w1 > maxMessages")
    case False
    with in1 show ?thesis by (simp add: record_timestamp_def Let_def)
  next
    case True
    then have "\<not> length w < maxMessages" by (auto simp: Set_add_def split: if_splits)
    with assms obtain u where u: "Some u \<in> set w" "u < t" by blast
    then have u1: "Some u \<in> set ?w1" by (simp add: Set_add_def)
    show ?thesis
    proof (cases "None \<in> set ?w1")
      case True
      then have "Math_min ?w1 = NaN" by (rule Math_min_undefined)
      with in1 show ?thesis by (simp add: record_timestamp_def Let_def)
    next
      case False
      moreover from in1 have "?w1 \<noteq> []" by auto
      ultimately obtain n where n: "Math_min ?w1 = Finite n"
        "\<forall>k. Some k \<in> set ?w1 \<longrightarrow> n \<le> k"
        using Math_min_numeric [of ?w1] by blast
      from n(2) u1 u(2) have "n \<noteq> t" by auto
      with in1 n(1) show ?thesis by (simp add: record_timestamp_def Let_def)
    qed
  qed
qed

lemma record_timestamp_evicts_self:
  assumes "length w = maxMessages" and "\<forall>x\<in>set w. \<exists>k. x = Some k \<and> n < k"
  shows "record_timestamp w (Some n) = w"
proof -
  have fresh: "Some n \<notin> set w" using assms(2) by auto
  then have add: "Set_add w (Some n) = w @ [Some n]" by (simp add: Set_add_def)
  have "None \<notin> set (w @ [Some n])" "w @ [Some n] \<noteq> []" using assms(2) by auto
  from Math_min_numeric [OF this] obtain k where
    k: "Math_min (w @ [Some n]) = Finite k" "Some k \<in> set (w @ [Some n])"
       "\<forall>j. Some j \<in> set (w @ [Some n]) \<longrightarrow> k \<le> j"
    by blast
  from k(3) have "k \<le> n" by simp
  with k(2) assms(2) have "k = n" by auto
  with k(1) add assms(1) fresh show ?thesis
    by (simp add: record_timestamp_def Let_def)
qed

subsection \<open>Fields that the handlers leave alone\<close>

lemma connectWebSocket_fields [simp]:
  "processedMessages (connectWebSocket cfg s) = processedMessages s"
  "isClosed (connectWebSocket cfg s) = isClosed s"
  "reconnectTimeout (connectWebSocket cfg s) = reconnectTimeout s"
  "timers (connectWebSocket cfg s) = timers s"
  "emitted (connectWebSocket cfg s) = emitted s"
  by (simp_all add: connectWebSocket_def Let_def)

lemma on_open_fields [simp]:
  "processedMessages (on_open s) = processedMessages s"
  "isClosed (on_open s) = isClosed s"
  "ws (on_open s) = ws s"
  "reconnectTimeout (on_open s) = reconnectTimeout s"
  "timers (on_open s) = timers s"
  "sockets (on_open s) = sockets s"
  "emitted (on_open s) = emitted s"
  by (simp_all add: on_open_def)

lemma schedule_reconnect_fields [simp]:
  "processedMessages (schedule_reconnect cfg s) = processedMessages s"
  "isClosed (schedule_reconnect cfg s) = isClosed s"
  "ws (schedule_reconnect cfg s) = ws s"
  "sockets (schedule_reconnect cfg s) = sockets s"
  "emitted (schedule_reconnect cfg s) = emitted s"
  by (simp_all add: schedule_reconnect_def Let_def)

lemma on_error_fields [simp]:
  "processedMessages (on_error cfg s) = processedMessages s"
  "isClosed (on_error cfg s) = isClosed s"
  "ws (on_error cfg s) = ws s"
  "sockets (on_error cfg s) = sockets s"
  "emitted (on_error cfg s) = emitted s"
  by (simp_all add: on_error_def)

lemma on_close_fields [simp]:
  "processedMessages (on_close cfg s) = processedMessages s"
  "isClosed (on_close cfg s) = isClosed s"
  "ws (on_close cfg s) = ws s"
  "sockets (on_close cfg s) = sockets s"
  "emitted (on_close cfg s) = emitted s"
  by (simp_all add: on_close_def)

lemma closeFunction_fields [simp]:
  "processedMessages (closeFunction s) = processedMessages s"
  "isClosed (closeFunction s)"
  "ws (closeFunction s) = None"
  "reconnectTimeout (closeFunction s) = None"
  "emitted (closeFunction s) = emitted s"
  "nextTimer (closeFunction s) = nextTimer s"
  by (simp_all add: closeFunction_def Let_def split: option.splits)

lemma on_message_socket [simp]:
  "socket_is (on_message cfg f s) c r = socket_is s c r"
  by (simp add: socket_is_def)

subsection \<open>Runs\<close>

lemma run_Nil [simp]: "run cfg s [] = s"
  by (simp add: run_def)

lemma run_Cons [simp]: "run cfg s (e # es) = run cfg (step cfg s e) es"
  by (simp add: run_def)

lemma run_append: "run cfg s (es @ es') = run cfg (run cfg s es) es'"
  by (simp add: run_def)

lemma frames_simps [simp]:
  "frames c [] = []"
  "frames c (m # ms) = Frame c (Parsed m) # frames c ms"
  "frames c (ms @ ms') = frames c ms @ frames c ms'"
  by (simp_all add: frames_def)

lemma step_frame_enabled:
  "socket_is s c OPEN \<or> socket_is s c CLOSING \<Longrightarrow> step cfg s (Frame c f) = on_message cfg f s"
  by (simp add: step_def)

lemma step_frame_socket [simp]:
  "socket_is (step cfg s (Frame c f)) c' r = socket_is s c' r"
  by (simp add: step_def socket_is_def)

lemma step_window:
  "processedMessages (step cfg s ev) =
     (case ev of
        Frame c f \<Rightarrow> if enabled s ev then processedMessages (on_message cfg f s)
                     else processedMessages s
      | _ \<Rightarrow> processedMessages s)"
  by (cases ev) (simp_all add: step_def)

lemmas handler_defs =
  step_def trigger_def connectWebSocket_def on_open_def on_message_def on_error_def
  on_close_def schedule_reconnect_def closeFunction_def socket_close_def socket_is_def
  perform_def Let_def

lemma emitted_trigger [simp]: "emitted (trigger cfg) = []"
  by (simp add: trigger_def initial_def emitted_def connectWebSocket_def Let_def)

lemma connected_fields:
  "processedMessages connected = []"
  "socket_is connected 0 OPEN"
  "emitted connected = []"
  by (simp_all add: connected_def handler_defs sample_defs emitted_def)

lemma failing_connection_fields:
  "reconnectTimeout failing_connection = Some 0"
  "ws failing_connection = Some 0"
  "timers failing_connection = [0]"
  "sockets failing_connection = [CLOSING]"
  "isClosed failing_connection = False"
  by (simp_all add: failing_connection_def handler_defs sample_defs)

subsection \<open>Frames without a timestamp\<close>

lemma on_message_undefined_stays:
  "None \<in> set (processedMessages s) \<Longrightarrow> None \<in> set (processedMessages (on_message cfg f s))"
  by (auto simp: on_message_def Let_def undefined_stays split: frame.splits option.splits)

lemma step_undefined_stays:
  "None \<in> set (processedMessages s) \<Longrightarrow> None \<in> set (processedMessages (step cfg s ev))"
  by (cases ev) (simp_all add: step_window on_message_undefined_stays)

lemma run_undefined_stays:
  "None \<in> set (processedMessages s) \<Longrightarrow> None \<in> set (processedMessages (run cfg s es))"
  by (induction es arbitrary: s) (simp_all add: step_undefined_stays)

lemma on_message_duplicate:
  "msg_envelope m = Some e \<Longrightarrow> env_timestamp e \<in> set (processedMessages s) \<Longrightarrow>
   on_message cfg (Parsed m) s = perform (LogDebug (DuplicateMessage (env_timestamp e))) s"
  by (simp add: on_message_def Set_has_def)

text \<open>
  C10. A parsed frame with an envelope and no timestamp gets no default for its key: the
  key \<^verbatim>\<open>undefined\<close> is added to the window (nothing is evicted), the normalized
  event carries the timestamp \<^verbatim>\<open>undefined\<close> and is emitted when the key was new
  and the filters pass. Whatever events follow, a later frame with an envelope and no
  timestamp is handled as a duplicate: the handler only logs it.
\<close>

theorem C10_missing_timestamp_is_recorded_as_undefined:
  assumes "msg_envelope m = Some e" and "env_timestamp e = None"
    and "msg_envelope m' = Some e'" and "env_timestamp e' = None"
  shows "processedMessages (on_message cfg (Parsed m) s) = Set_add (processedMessages s) None
         \<and> Set_has (processedMessages (on_message cfg (Parsed m) s)) None
         \<and> timestamp (make_processedMessage m e) = None
         \<and> emitted (on_message cfg (Parsed m) s) =
             emitted s @
               (if \<not> Set_has (processedMessages s) None \<and> passes cfg (make_processedMessage m e)
                then [make_processedMessage m e] else [])
         \<and> on_message cfg (Parsed m') (run cfg (on_message cfg (Parsed m) s) es)
             = perform (LogDebug (DuplicateMessage None))
                 (run cfg (on_message cfg (Parsed m) s) es)"
proof -
  let ?s1 = "on_message cfg (Parsed m) s"
  have w: "processedMessages ?s1 = Set_add (processedMessages s) None"
    using assms(1,2) by (simp add: on_message_window record_undefined Set_has_def Set_add_def)
  then have has: "None \<in> set (processedMessages ?s1)"
    by (simp add: Set_add_def)
  then have "None \<in> set (processedMessages (run cfg ?s1 es))"
    by (rule run_undefined_stays)
  then have dup: "on_message cfg (Parsed m') (run cfg ?s1 es)
                    = perform (LogDebug (DuplicateMessage None)) (run cfg ?s1 es)"
    using on_message_duplicate [OF assms(3), of "run cfg ?s1 es" cfg] assms(4) by simp
  have ts: "timestamp (make_processedMessage m e) = None"
    using assms(2) by (simp add: make_processedMessage_def)
  have em: "emitted ?s1 = emitted s @
      (if \<not> Set_has (processedMessages s) None \<and> passes cfg (make_processedMessage m e)
       then [make_processedMessage m e] else [])"
    using assms(1,2) by (simp add: on_message_emitted)
  from w has dup ts em show ?thesis by (simp add: Set_has_def)
qed

theorem C10_missing_timestamp_is_recorded_as_undefined_witness:
  "msg_envelope (text_message None ''a'') = Some (text_envelope None ''a'')
   \<and> env_timestamp (text_envelope None ''a'') = None
   \<and> msg_envelope (text_message None ''b'') = Some (text_envelope None ''b'')
   \<and> env_timestamp (text_envelope None ''b'') = None
   \<and> processedMessages (on_message default_config (Parsed (text_message None ''a'')) initial)
       = [None]
   \<and> emitted (on_message default_config (Parsed (text_message None ''a'')) initial)
       = [make_processedMessage (text_message None ''a'') (text_envelope None ''a'')]
   \<and> emitted (on_message default_config (Parsed (text_message None ''b''))
        (run default_config
           (on_message default_config (Parsed (text_message None ''a'')) initial)
           [Frame 0 (Parsed (text_message (Some 3) ''c''))]))
       = emitted (run default_config
           (on_message default_config (Parsed (text_message None ''a'')) initial)
           [Frame 0 (Parsed (text_message (Some 3) ''c''))])"
proof -
  have h: "msg_envelope (text_message None ''a'') = Some (text_envelope None ''a'')"
    "env_timestamp (text_envelope None ''a'') = None"
    "msg_envelope (text_message None ''b'') = Some (text_envelope None ''b'')"
    "env_timestamp (text_envelope None ''b'') = None"
    by (simp_all add: text_message_def text_envelope_def blank_envelope_def)
  note c = C10_missing_timestamp_is_recorded_as_undefined
    [OF h, of default_config initial "[Frame 0 (Parsed (text_message (Some 3) ''c''))]"]
  have p: "passes default_config
             (make_processedMessage (text_message None ''a'') (text_envelope None ''a''))"
    by (simp add: sample_defs filter_defs)
  have i: "processedMessages initial = []" "emitted initial = []"
    by (simp_all add: initial_def emitted_def)
  from c have "processedMessages
      (on_message default_config (Parsed (text_message None ''a'')) initial) = [None]"
    by (simp add: i Set_add_def)
  moreover from c p have "emitted
      (on_message default_config (Parsed (text_message None ''a'')) initial)
       = [make_processedMessage (text_message None ''a'') (text_envelope None ''a'')]"
    by (simp add: i Set_has_def)
  moreover from c have "emitted (on_message default_config (Parsed (text_message None ''b''))
        (run default_config
           (on_message default_config (Parsed (text_message None ''a'')) initial)
           [Frame 0 (Parsed (text_message (Some 3) ''c''))]))
       = emitted (run default_config
           (on_message default_config (Parsed (text_message None ''a'')) initial)
           [Frame 0 (Parsed (text_message (Some 3) ''c''))])"
    by (simp del: run_Cons run_Nil)
  ultimately show ?thesis using h by blast
qed

subsection \<open>Frames that are not JSON, and where emitted values come from\<close>

lemma on_message_trace:
  "\<exists>xs. trace (on_message cfg f s) = trace s @ xs
        \<and> (\<forall>x\<in>set xs. \<not> is_connect x \<and> \<not> is_schedule x)
        \<and> (\<forall>ev\<in>set (emitted_of xs).
              \<exists>m e. f = Parsed m \<and> msg_envelope m = Some e
                    \<and> ev = make_processedMessage m e \<and> passes cfg ev)"
  by (auto simp: on_message_def Let_def passes_def split: frame.splits option.splits)

lemma on_message_emitted_origin:
  "\<exists>xs. emitted (on_message cfg f s) = emitted s @ xs
        \<and> (\<forall>ev\<in>set xs. \<exists>m e. f = Parsed m \<and> msg_envelope m = Some e
                              \<and> ev = make_processedMessage m e \<and> passes cfg ev)"
proof (cases f)
  case (Parsed m)
  show ?thesis
  proof (cases "msg_envelope m")
    case None
    with Parsed show ?thesis by (simp add: on_message_no_envelope)
  next
    case (Some e)
    let ?xs = "if \<not> Set_has (processedMessages s) (env_timestamp e)
                   \<and> passes cfg (make_processedMessage m e)
               then [make_processedMessage m e] else []"
    have "\<forall>ev\<in>set ?xs. \<exists>m' e'. Parsed m = Parsed m' \<and> msg_envelope m' = Some e'
                              \<and> ev = make_processedMessage m' e' \<and> passes cfg ev"
      using Some by simp
    moreover have "emitted (on_message cfg (Parsed m) s) = emitted s @ ?xs"
      by (rule on_message_emitted [OF Some])
    ultimately show ?thesis
      unfolding Parsed by (intro exI [of _ ?xs] conjI)
  qed
qed (simp_all add: on_message_def)

lemma step_emitted_origin:
  "\<exists>xs. emitted (step cfg s x) = emitted s @ xs
        \<and> (\<forall>ev\<in>set xs. \<exists>c m e. x = Frame c (Parsed m) \<and> msg_envelope m = Some e
                              \<and> ev = make_processedMessage m e \<and> passes cfg ev)"
proof (cases x)
  case (Frame c f)
  from on_message_emitted_origin [of cfg f s] obtain xs where
    "emitted (on_message cfg f s) = emitted s @ xs"
    "\<forall>ev\<in>set xs. \<exists>m e. f = Parsed m \<and> msg_envelope m = Some e
                              \<and> ev = make_processedMessage m e \<and> passes cfg ev"
    by blast
  then have "\<exists>xs. emitted (on_message cfg f s) = emitted s @ xs
        \<and> (\<forall>ev\<in>set xs. \<exists>c' m e. Frame c f = Frame c' (Parsed m) \<and> msg_envelope m = Some e
                              \<and> ev = make_processedMessage m e \<and> passes cfg ev)"
    by (intro exI [of _ xs]) simp
  then show ?thesis
    unfolding Frame step_def by (cases "enabled s (Frame c f)") simp_all
qed (simp_all add: step_def)

lemma run_emitted_origin:
  "\<exists>xs. emitted (run cfg s es) = emitted s @ xs
        \<and> (\<forall>ev\<in>set xs. \<exists>c m e. Frame c (Parsed m) \<in> set es \<and> msg_envelope m = Some e
                              \<and> ev = make_processedMessage m e \<and> passes cfg ev)"
proof (induction es arbitrary: s)
  case Nil
  then show ?case by simp
next
  case (Cons x es)
  from step_emitted_origin [of cfg s x] obtain xs where
    xs: "emitted (step cfg s x) = emitted s @ xs"
        "\<forall>ev\<in>set xs. \<exists>c m e. x = Frame c (Parsed m) \<and> msg_envelope m = Some e
                              \<and> ev = make_processedMessage m e \<and> passes cfg ev"
    by blast
  from Cons.IH [of "step cfg s x"] obtain ys where
    ys: "emitted (run cfg (step cfg s x) es) = emitted (step cfg s x) @ ys"
        "\<forall>ev\<in>set ys. \<exists>c m e. Frame c (Parsed m) \<in> set es \<and> msg_envelope m = Some e
                              \<and> ev = make_processedMessage m e \<and> passes cfg ev"
    by blast
  have "emitted (run cfg s (x # es)) = emitted s @ (xs @ ys)"
    using xs(1) ys(1) by simp
  moreover have "\<forall>ev\<in>set (xs @ ys). \<exists>c m e. Frame c (Parsed m) \<in> set (x # es)
      \<and> msg_envelope m = Some e \<and> ev = make_processedMessage m e \<and> passes cfg ev"
  proof
    fix ev assume "ev \<in> set (xs @ ys)"
    then consider "ev \<in> set xs" | "ev \<in> set ys" by auto
    then show "\<exists>c m e. Frame c (Parsed m) \<in> set (x # es)
      \<and> msg_envelope m = Some e \<and> ev = make_processedMessage m e \<and> passes cfg ev"
    proof cases
      case 1
      with xs(2) obtain c m e where "x = Frame c (Parsed m)" "msg_envelope m = Some e"
        "ev = make_processedMessage m e" "passes cfg ev" by blast
      then show ?thesis by (intro exI [of _ c] exI [of _ m] exI [of _ e]) simp
    next
      case 2
      with ys(2) obtain c m e where "Frame c (Parsed m) \<in> set es" "msg_envelope m = Some e"
        "ev = make_processedMessage m e" "passes cfg ev" by blast
      then show ?thesis by (intro exI [of _ c] exI [of _ m] exI [of _ e]) simp
    qed
  qed
  ultimately show ?case by blast
qed

text \<open>
  C9. A frame that is not JSON, delivered on an open socket, only adds one error line to
  the log: the socket stays open, the sockets, the timers, both slots and the window are
  as before, and nothing is emitted. In every run of the trigger each emitted value is
  the normalized event of a parsed frame of that run that has an envelope and passes the
  filters.
\<close>

theorem C9_parse_failure_is_logged_only:
  assumes "socket_is s c OPEN"
  shows "step cfg s (Frame c Malformed) = perform (LogError ErrorParsing) s
         \<and> trace (step cfg s (Frame c Malformed)) = trace s @ [(isClosed s, LogError ErrorParsing)]
         \<and> socket_is (step cfg s (Frame c Malformed)) c OPEN
         \<and> sockets (step cfg s (Frame c Malformed)) = sockets s
         \<and> ws (step cfg s (Frame c Malformed)) = ws s
         \<and> timers (step cfg s (Frame c Malformed)) = timers s
         \<and> reconnectTimeout (step cfg s (Frame c Malformed)) = reconnectTimeout s
         \<and> processedMessages (step cfg s (Frame c Malformed)) = processedMessages s
         \<and> emitted (step cfg s (Frame c Malformed)) = emitted s
         \<and> (\<forall>ev\<in>set (emitted (run cfg (trigger cfg) es)).
               \<exists>c' m e. Frame c' (Parsed m) \<in> set es \<and> msg_envelope m = Some e
                        \<and> ev = make_processedMessage m e \<and> passes cfg ev)"
proof -
  have "step cfg s (Frame c Malformed) = perform (LogError ErrorParsing) s"
    using assms by (simp add: step_def on_message_def)
  moreover have "\<forall>ev\<in>set (emitted (run cfg (trigger cfg) es)).
               \<exists>c' m e. Frame c' (Parsed m) \<in> set es \<and> msg_envelope m = Some e
                        \<and> ev = make_processedMessage m e \<and> passes cfg ev"
    using run_emitted_origin [of cfg "trigger cfg" es] by simp
  ultimately show ?thesis using assms by (simp add: socket_is_def)
qed

theorem C9_parse_failure_is_logged_only_witness:
  "socket_is connected 0 OPEN
   \<and> step default_config connected (Frame 0 Malformed)
       = perform (LogError ErrorParsing) connected
   \<and> socket_is (step default_config connected (Frame 0 Malformed)) 0 OPEN
   \<and> emitted (step default_config connected (Frame 0 Malformed)) = []
   \<and> emitted (run default_config (trigger default_config)
        [Opened 0, Frame 0 Malformed, Frame 0 (Parsed (text_message (Some 1) ''hi''))])
       = [make_processedMessage (text_message (Some 1) ''hi'') (text_envelope (Some 1) ''hi'')]"
proof -
  note c = C9_parse_failure_is_logged_only [OF connected_fields(2), of default_config
    "[Opened 0, Frame 0 Malformed, Frame 0 (Parsed (text_message (Some 1) ''hi''))]"]
  have "emitted (run default_config (trigger default_config)
        [Opened 0, Frame 0 Malformed, Frame 0 (Parsed (text_message (Some 1) ''hi''))])
       = [make_processedMessage (text_message (Some 1) ''hi'') (text_envelope (Some 1) ''hi'')]"
    by (simp add: handler_defs sample_defs filter_defs window_defs emitted_def)
  moreover from c have "step default_config connected (Frame 0 Malformed)
       = perform (LogError ErrorParsing) connected"
    by (rule conjunct1)
  moreover from c have "socket_is (step default_config connected (Frame 0 Malformed)) 0 OPEN"
    by blast
  moreover from c have "emitted (step default_config connected (Frame 0 Malformed)) = []"
    using connected_fields(3) by simp
  ultimately show ?thesis using connected_fields(2) by blast
qed

subsection \<open>Stop\<close>

lemma closeFunction_trace:
  "trace (closeFunction s) =
     trace s
     @ (case reconnectTimeout s of None \<Rightarrow> [] | Some k \<Rightarrow> [(True, ClearTimeout k)])
     @ (case ws s of None \<Rightarrow> [] | Some c \<Rightarrow> [(True, WsClose c)])
     @ [(True, LogDebug ReconnectionStopped)]"
  by (simp add: closeFunction_def Let_def split: option.splits)

lemma closeFunction_timers:
  "timers (closeFunction s) =
     (case reconnectTimeout s of None \<Rightarrow> timers s | Some k \<Rightarrow> removeAll k (timers s))"
  by (simp add: closeFunction_def Let_def split: option.splits)

lemma closeFunction_sockets:
  "sockets (closeFunction s) =
     (case ws s of None \<Rightarrow> sockets s | Some c \<Rightarrow> socket_close c (sockets s))"
  by (simp add: closeFunction_def Let_def split: option.splits)

lemma closeFunction_stopped: "stopped (closeFunction s)"
  by (simp add: stopped_def)

lemma socket_close_length [simp]: "length (socket_close c ss) = length ss"
  by (simp add: socket_close_def)

lemma stopped_on_message:
  assumes "stopped s"
  shows "stopped (on_message cfg f s)
         \<and> length (sockets (on_message cfg f s)) = length (sockets s)
         \<and> set (timers (on_message cfg f s)) \<subseteq> set (timers s)
         \<and> (\<exists>xs. trace (on_message cfg f s) = trace s @ xs
                  \<and> (\<forall>y\<in>set xs. \<not> is_connect y \<and> \<not> is_schedule y))"
proof -
  from on_message_trace [of cfg f s] obtain xs where
    "trace (on_message cfg f s) = trace s @ xs"
    "\<forall>y\<in>set xs. \<not> is_connect y \<and> \<not> is_schedule y" by blast
  then have "\<exists>xs. trace (on_message cfg f s) = trace s @ xs
                  \<and> (\<forall>y\<in>set xs. \<not> is_connect y \<and> \<not> is_schedule y)" by blast
  with assms show ?thesis by (simp add: stopped_def)
qed

lemma stopped_closeFunction:
  "stopped (closeFunction s)
   \<and> length (sockets (closeFunction s)) = length (sockets s)
   \<and> set (timers (closeFunction s)) \<subseteq> set (timers s)
   \<and> (\<exists>xs. trace (closeFunction s) = trace s @ xs
            \<and> (\<forall>y\<in>set xs. \<not> is_connect y \<and> \<not> is_schedule y))"
proof -
  have "\<exists>xs. trace (closeFunction s) = trace s @ xs
            \<and> (\<forall>y\<in>set xs. \<not> is_connect y \<and> \<not> is_schedule y)"
    by (auto simp: closeFunction_trace split: option.splits)
  moreover have "length (sockets (closeFunction s)) = length (sockets s)"
    by (simp add: closeFunction_sockets split: option.splits)
  moreover have "set (timers (closeFunction s)) \<subseteq> set (timers s)"
    by (auto simp: closeFunction_timers split: option.splits)
  ultimately show ?thesis by (simp add: closeFunction_stopped)
qed

lemma stopped_on_error:
  assumes "stopped s"
  shows "on_error cfg s = perform (LogError WebSocketError) s"
  using assms by (simp add: on_error_def schedule_reconnect_def stopped_def)

lemma stopped_on_close:
  assumes "stopped s"
  shows "on_close cfg s = perform (LogDebug WebSocketClosed) s"
  using assms by (simp add: on_close_def schedule_reconnect_def stopped_def)

lemma stopped_connectWebSocket:
  assumes "stopped s"
  shows "connectWebSocket cfg s = perform (LogDebug SkippingReconnect) s"
  using assms by (simp add: connectWebSocket_def stopped_def)

lemma stopped_update:
  "stopped (s\<lparr>sockets := ss\<rparr>) = stopped s"
  "stopped (s\<lparr>timers := ks\<rparr>) = stopped s"
  by (simp_all add: stopped_def)

lemma step_stopped:
  assumes "stopped s"
  shows "stopped (step cfg s x)
         \<and> length (sockets (step cfg s x)) = length (sockets s)
         \<and> set (timers (step cfg s x)) \<subseteq> set (timers s)
         \<and> (\<exists>xs. trace (step cfg s x) = trace s @ xs
                  \<and> (\<forall>y\<in>set xs. \<not> is_connect y \<and> \<not> is_schedule y))"
proof (cases "enabled s x")
  case False
  with assms show ?thesis by (simp add: step_def)
next
  case True
  show ?thesis
  proof (cases x)
    case (Opened c)
    with True assms show ?thesis
      by (simp add: step_def on_open_def stopped_def)
  next
    case (Frame c f)
    with True stopped_on_message [OF assms, of cfg f] show ?thesis
      by (simp add: step_def)
  next
    case (Errored c)
    have "stopped (s\<lparr>sockets := (sockets s)[c := CLOSING]\<rparr>)"
      using assms by (simp add: stopped_update)
    from stopped_on_error [OF this, of cfg] Errored True assms show ?thesis
      by (simp add: step_def stopped_def)
  next
    case (Closed c)
    have "stopped (s\<lparr>sockets := (sockets s)[c := CLOSED]\<rparr>)"
      using assms by (simp add: stopped_update)
    from stopped_on_close [OF this, of cfg] Closed True assms show ?thesis
      by (simp add: step_def stopped_def)
  next
    case (TimerFired k)
    have "stopped (s\<lparr>timers := removeAll k (timers s)\<rparr>)"
      using assms by (simp add: stopped_update)
    from stopped_connectWebSocket [OF this, of cfg] TimerFired True assms show ?thesis
      by (auto simp: step_def stopped_def)
  next
    case StopRequested
    with stopped_closeFunction [of s] show ?thesis
      by (simp add: step_def)
  qed
qed

lemma run_stopped:
  assumes "stopped s"
  shows "stopped (run cfg s es)
         \<and> length (sockets (run cfg s es)) = length (sockets s)
         \<and> set (timers (run cfg s es)) \<subseteq> set (timers s)
         \<and> (\<exists>xs. trace (run cfg s es) = trace s @ xs
                  \<and> (\<forall>y\<in>set xs. \<not> is_connect y \<and> \<not> is_schedule y))"
  using assms
proof (induction es arbitrary: s)
  case Nil
  then show ?case by simp
next
  case (Cons x es)
  let ?s1 = "step cfg s x"
  from step_stopped [OF Cons.prems, of cfg x] obtain xs where
    a: "stopped ?s1" "length (sockets ?s1) = length (sockets s)"
       "set (timers ?s1) \<subseteq> set (timers s)" "trace ?s1 = trace s @ xs"
       "\<forall>y\<in>set xs. \<not> is_connect y \<and> \<not> is_schedule y"
    by blast
  from Cons.IH [OF a(1)] obtain ys where
    b: "stopped (run cfg ?s1 es)" "length (sockets (run cfg ?s1 es)) = length (sockets ?s1)"
       "set (timers (run cfg ?s1 es)) \<subseteq> set (timers ?s1)"
       "trace (run cfg ?s1 es) = trace ?s1 @ ys"
       "\<forall>y\<in>set ys. \<not> is_connect y \<and> \<not> is_schedule y"
    by blast
  have "trace (run cfg s (x # es)) = trace s @ (xs @ ys)"
    using a(4) b(4) by simp
  moreover have "\<forall>y\<in>set (xs @ ys). \<not> is_connect y \<and> \<not> is_schedule y"
    using a(5) b(5) by auto
  ultimately have "\<exists>zs. trace (run cfg s (x # es)) = trace s @ zs
      \<and> (\<forall>y\<in>set zs. \<not> is_connect y \<and> \<not> is_schedule y)"
    by blast
  moreover have "stopped (run cfg s (x # es))"
    using b(1) by simp
  moreover have "length (sockets (run cfg s (x # es))) = length (sockets s)"
    using a(2) b(2) by simp
  moreover have "set (timers (run cfg s (x # es))) \<subseteq> set (timers s)"
    using a(3) b(3) by auto
  ultimately show ?case by blast
qed

text \<open>
  C2, as the code has it. Every effect of \<^verbatim>\<open>closeFunction\<close> happens with the flag
  already set; the timer in the slot is cancelled and the slot emptied; the socket in the
  slot is closing or closed and the slot emptied. After that, whatever events arrive, the
  flag stays set, the slots stay empty, no socket is created, no timer is added, and the
  trace holds no new connection and no new timeout.
\<close>

theorem C2_stop_ends_reconnection:
  "(\<forall>x\<in>set (effects_since (length (trace s)) (closeFunction s)). fst x)
   \<and> isClosed (closeFunction s)
   \<and> reconnectTimeout (closeFunction s) = None
   \<and> (\<forall>k. reconnectTimeout s = Some k \<longrightarrow> k \<notin> set (timers (closeFunction s)))
   \<and> ws (closeFunction s) = None
   \<and> (\<forall>c. ws s = Some c \<longrightarrow>
          \<not> socket_is (closeFunction s) c OPEN \<and> \<not> socket_is (closeFunction s) c CONNECTING)
   \<and> isClosed (run cfg (closeFunction s) es)
   \<and> ws (run cfg (closeFunction s) es) = None
   \<and> reconnectTimeout (run cfg (closeFunction s) es) = None
   \<and> length (sockets (run cfg (closeFunction s) es)) = length (sockets s)
   \<and> set (timers (run cfg (closeFunction s) es)) \<subseteq> set (timers (closeFunction s))
   \<and> (\<forall>x\<in>set (effects_since (length (trace (closeFunction s)))
                  (run cfg (closeFunction s) es)).
          \<not> is_connect x \<and> \<not> is_schedule x)"
proof -
  let ?s1 = "closeFunction s"
  have a: "\<forall>x\<in>set (effects_since (length (trace s)) ?s1). fst x"
    by (auto simp: effects_since_def closeFunction_trace split: option.splits)
  have b: "\<forall>k. reconnectTimeout s = Some k \<longrightarrow> k \<notin> set (timers ?s1)"
    by (simp add: closeFunction_timers)
  have c: "\<forall>c. ws s = Some c \<longrightarrow> \<not> socket_is ?s1 c OPEN \<and> \<not> socket_is ?s1 c CONNECTING"
    by (auto simp: closeFunction_sockets socket_is_def socket_close_def)
  from run_stopped [OF closeFunction_stopped, of cfg s es] obtain xs where
    d: "stopped (run cfg ?s1 es)" "length (sockets (run cfg ?s1 es)) = length (sockets ?s1)"
       "set (timers (run cfg ?s1 es)) \<subseteq> set (timers ?s1)"
       "trace (run cfg ?s1 es) = trace ?s1 @ xs"
       "\<forall>y\<in>set xs. \<not> is_connect y \<and> \<not> is_schedule y"
    by blast
  have e: "\<forall>x\<in>set (effects_since (length (trace ?s1)) (run cfg ?s1 es)).
             \<not> is_connect x \<and> \<not> is_schedule x"
    using d(4,5) by (simp add: effects_since_def)
  have f: "length (sockets ?s1) = length (sockets s)"
    by (simp add: closeFunction_sockets split: option.splits)
  from a b c d(1,2,3) e f show ?thesis
    by (simp add: stopped_def)
qed

theorem C2_stop_ends_reconnection_witness:
  "reconnectTimeout failing_connection = Some 0
   \<and> ws failing_connection = Some 0
   \<and> 0 \<notin> set (timers (closeFunction failing_connection))
   \<and> \<not> socket_is (closeFunction failing_connection) 0 OPEN
   \<and> isClosed (run default_config (closeFunction failing_connection)
        [Closed 0, TimerFired 0, Errored 0])
   \<and> length (sockets (run default_config (closeFunction failing_connection)
        [Closed 0, TimerFired 0, Errored 0])) = 1
   \<and> effects_since (length (trace failing_connection)) (closeFunction failing_connection)
       = [(True, ClearTimeout 0), (True, WsClose 0), (True, LogDebug ReconnectionStopped)]"
proof -
  have "effects_since (length (trace failing_connection)) (closeFunction failing_connection)
       = [(True, ClearTimeout 0), (True, WsClose 0), (True, LogDebug ReconnectionStopped)]"
    by (simp add: effects_since_def closeFunction_trace failing_connection_fields)
  with C2_stop_ends_reconnection
    [of failing_connection default_config "[Closed 0, TimerFired 0, Errored 0]"]
  show ?thesis
    by (simp add: failing_connection_fields del: run_Cons run_Nil)
qed

text \<open>
  C2 as the specification words it fails: a frame that the closing socket still delivers
  after \<^verbatim>\<open>closeFunction\<close> has returned is emitted, since the message handler does
  not read the flag.
\<close>

theorem C2_counterexample:
  "isClosed (run default_config (trigger default_config) [Opened 0, StopRequested])
   \<and> emitted (run default_config (trigger default_config) [Opened 0, StopRequested]) = []
   \<and> emitted (run default_config (trigger default_config)
        [Opened 0, StopRequested, Frame 0 (Parsed (text_message (Some 1000) ''hi''))])
       = [make_processedMessage (text_message (Some 1000) ''hi'')
            (text_envelope (Some 1000) ''hi'')]"
  by (simp add: handler_defs sample_defs filter_defs window_defs emitted_def)

subsection \<open>Reconnection\<close>

text \<open>
  C3 at a failing connection. The error handler and the close handler each set a timer
  and store it in the one slot without clearing the timer that is there. After an error
  followed by the close of the same socket two timers are pending, and when both have
  fired two new sockets exist.
\<close>

theorem C3_error_then_close_schedules_two_reconnects:
  "timers (run default_config (trigger default_config) [Errored 0, Closed 0]) = [0, 1]
   \<and> reconnectTimeout (run default_config (trigger default_config) [Errored 0, Closed 0])
       = Some 1
   \<and> sockets (run default_config (trigger default_config)
        [Errored 0, Closed 0, TimerFired 0, TimerFired 1]) = [CLOSED, CONNECTING, CONNECTING]
   \<and> filter is_connect (trace (run default_config (trigger default_config)
        [Errored 0, Closed 0, TimerFired 0, TimerFired 1]))
       = [(False, NewWebSocket 0), (False, NewWebSocket 1), (False, NewWebSocket 2)]"
  by (simp add: handler_defs sample_defs)

text \<open>A close alone, before any stop, sets exactly one timer with the configured delay.\<close>

lemma close_alone_schedules_one_reconnect:
  assumes "\<not> isClosed s" and "enabled s (Closed c)"
  shows "timers (step cfg s (Closed c)) = timers s @ [nextTimer s]
         \<and> reconnectTimeout (step cfg s (Closed c)) = Some (nextTimer s)
         \<and> effects_since (length (trace s)) (step cfg s (Closed c))
             = [(False, LogDebug WebSocketClosed),
                (False, SetTimeout (nextTimer s) (reconnectDelay cfg))]"
  using assms by (simp add: handler_defs effects_since_def)

subsection \<open>Runs of frames with distinct timestamps\<close>

lemma on_message_fresh:
  assumes "carries m t" and "Some t \<notin> set (processedMessages s)"
  shows "processedMessages (on_message cfg (Parsed m) s)
           = record_timestamp (processedMessages s) (Some t)"
  using assms
  by (auto simp: carries_def on_message_window Set_has_def split: option.splits)

lemma carries_text_messages:
  "list_all2 carries (map (\<lambda>t. text_message (Some t) txt) ts) ts"
  by (induction ts) (simp_all add: carries_def text_message_def text_envelope_def)

lemma run_frames_window:
  assumes "list_all2 carries ms ts" and "distinct ts"
    and "\<forall>t\<in>set ts. Some t \<notin> set (processedMessages s)"
    and "socket_is s c OPEN"
    and "length (processedMessages s) + length ts \<le> maxMessages
         \<or> None \<in> set (processedMessages s)"
  shows "processedMessages (run cfg s (frames c ms)) = processedMessages s @ map Some ts
         \<and> socket_is (run cfg s (frames c ms)) c OPEN"
  using assms
proof (induction ms ts arbitrary: s rule: list_all2_induct)
  case Nil
  then show ?case by simp
next
  case (Cons m ms t ts)
  let ?s1 = "step cfg s (Frame c (Parsed m))"
  have fresh: "Some t \<notin> set (processedMessages s)"
    using Cons.prems(2) by simp
  have room: "length (processedMessages s) < maxMessages \<or> None \<in> set (processedMessages s)"
    using Cons.prems(4) by auto
  have w1: "processedMessages ?s1 = processedMessages s @ [Some t]"
    using Cons.prems(3) on_message_fresh [OF Cons.hyps(1) fresh, of cfg]
      record_timestamp_appends [OF fresh room]
    by (simp add: step_frame_enabled)
  have "processedMessages (run cfg ?s1 (frames c ms)) = processedMessages ?s1 @ map Some ts
        \<and> socket_is (run cfg ?s1 (frames c ms)) c OPEN"
  proof (rule Cons.IH)
    show "distinct ts" using Cons.prems(1) by simp
    show "\<forall>t'\<in>set ts. Some t' \<notin> set (processedMessages ?s1)"
      using Cons.prems(1,2) w1 by auto
    show "socket_is ?s1 c OPEN" using Cons.prems(3) by simp
    show "length (processedMessages ?s1) + length ts \<le> maxMessages
          \<or> None \<in> set (processedMessages ?s1)"
      using Cons.prems(4) w1 by auto
  qed
  with w1 show ?case by simp
qed

lemma full_window_fields:
  "processedMessages full_window = map Some [1..1000]"
  "socket_is full_window 0 OPEN"
proof -
  have c: "run default_config (trigger default_config) [Opened 0] = connected"
    by (simp add: connected_def)
  have "processedMessages (run default_config connected (frames 0 thousand_messages))
          = processedMessages connected @ map Some [1..1000]
        \<and> socket_is (run default_config connected (frames 0 thousand_messages)) 0 OPEN"
    by (rule run_frames_window)
       (simp_all add: thousand_messages_def carries_text_messages connected_fields
          maxMessages_def)
  moreover have "full_window = run default_config connected (frames 0 thousand_messages)"
    unfolding full_window_def connected_def by simp
  ultimately show "processedMessages full_window = map Some [1..1000]"
    "socket_is full_window 0 OPEN"
    by (simp_all add: connected_fields)
qed

text \<open>
  C5. Starting from an empty window, after 1001 frames with distinct numeric timestamps
  the window holds exactly 1000 keys: all the timestamps but the smallest one.
\<close>

theorem C5_window_after_1001_distinct_timestamps:
  assumes "list_all2 carries ms ts" and "distinct ts" and "length ts = 1001"
    and "processedMessages s = []" and "socket_is s c OPEN"
  shows "length (processedMessages (run cfg s (frames c ms))) = 1000
         \<and> set (processedMessages (run cfg s (frames c ms)))
             = Some ` (set ts - {Min (set ts)})"
proof -
  from assms(3) have "ts \<noteq> []" by auto
  then obtain ts1 t where ts: "ts = ts1 @ [t]"
    by (cases ts rule: rev_cases) auto
  from assms(1) [unfolded ts list_all2_append2] obtain ms1 ms2 where
    ms: "ms = ms1 @ ms2" "length ms2 = length [t]" "list_all2 carries ms1 ts1"
        "list_all2 carries ms2 [t]"
    by blast
  from ms(2,4) obtain m where m: "ms2 = [m]" "carries m t"
    by (cases ms2) auto
  have len1: "length ts1 = maxMessages"
    using assms(3) ts by (simp add: maxMessages_def)
  let ?s1 = "run cfg s (frames c ms1)"
  have s1: "processedMessages ?s1 = processedMessages s @ map Some ts1
            \<and> socket_is ?s1 c OPEN"
  proof (rule run_frames_window [OF ms(3)])
    show "distinct ts1" using assms(2) ts by simp
    show "\<forall>t\<in>set ts1. Some t \<notin> set (processedMessages s)" using assms(4) by simp
    show "socket_is s c OPEN" by (rule assms(5))
    show "length (processedMessages s) + length ts1 \<le> maxMessages
          \<or> None \<in> set (processedMessages s)"
      using assms(4) len1 by simp
  qed
  then have w1: "processedMessages ?s1 = map Some ts1" and open1: "socket_is ?s1 c OPEN"
    using assms(4) by simp_all
  have fresh: "Some t \<notin> set (processedMessages ?s1)"
    using assms(2) ts w1 by auto
  have run: "run cfg s (frames c ms) = on_message cfg (Parsed m) ?s1"
    using open1 by (simp add: ms(1) m(1) run_append step_frame_enabled)
  have w: "processedMessages (run cfg s (frames c ms))
             = removeAll (Some (Min (set ts))) (map Some ts)"
    using on_message_fresh [OF m(2) fresh, of cfg]
      record_timestamp_evicts_minimum [of ts1 t] assms(2) len1
    by (simp add: run w1 ts del: map_append)
  have minin: "Min (set ts) \<in> set ts"
    using \<open>ts \<noteq> []\<close> by (intro Min_in) auto
  have dist: "distinct (map Some ts)"
    using assms(2) by (simp add: distinct_map)
  have "length (removeAll (Some (Min (set ts))) (map Some ts)) = length ts - 1"
    using dist minin
    by (simp add: distinct_remove1_removeAll [symmetric] length_remove1)
  moreover have "set (removeAll (Some (Min (set ts))) (map Some ts))
                   = Some ` (set ts - {Min (set ts)})"
    by auto
  ultimately show ?thesis using w assms(3) by simp
qed

theorem C5_window_after_1001_distinct_timestamps_witness:
  "list_all2 carries thousand_and_one_messages [1..1001]
   \<and> distinct [1..1001::int]
   \<and> length [1..1001::int] = 1001
   \<and> processedMessages connected = []
   \<and> socket_is connected 0 OPEN
   \<and> length (processedMessages (run default_config connected
        (frames 0 thousand_and_one_messages))) = 1000
   \<and> Some 1 \<notin> set (processedMessages (run default_config connected
        (frames 0 thousand_and_one_messages)))
   \<and> Some 2 \<in> set (processedMessages (run default_config connected
        (frames 0 thousand_and_one_messages)))"
proof -
  have h: "list_all2 carries thousand_and_one_messages [1..1001]"
    "distinct [1..1001::int]" "length [1..1001::int] = 1001"
    by (simp_all add: thousand_and_one_messages_def carries_text_messages)
  have "Min (set [1..1001::int]) = 1"
    by (intro Min_eqI) auto
  with C5_window_after_1001_distinct_timestamps
    [OF h connected_fields(1,2), of default_config]
  show ?thesis using h connected_fields(1,2) by auto
qed

subsection \<open>The bound of the window\<close>

lemma step_window_bound:
  assumes "numeric_timestamp x" and "None \<notin> set (processedMessages s)"
    and "length (processedMessages s) \<le> maxMessages"
  shows "None \<notin> set (processedMessages (step cfg s x))
         \<and> length (processedMessages (step cfg s x)) \<le> maxMessages"
proof (cases x)
  case (Frame c f)
  show ?thesis
  proof (cases f)
    case (Parsed m)
    show ?thesis
    proof (cases "msg_envelope m")
      case None
      with assms Frame Parsed show ?thesis
        by (simp add: step_window on_message_no_envelope)
    next
      case (Some e)
      with assms(1) Frame Parsed obtain n where n: "env_timestamp e = Some n" by auto
      from record_timestamp_bound [OF assms(2,3), of n] assms(2,3) Frame Parsed Some n
      show ?thesis
        by (simp add: step_window on_message_window)
    qed
  qed (use assms Frame in \<open>simp_all add: step_window on_message_def\<close>)
qed (use assms in \<open>simp_all add: step_window\<close>)

lemma run_window_bound:
  assumes "list_all numeric_timestamp es" and "None \<notin> set (processedMessages s)"
    and "length (processedMessages s) \<le> maxMessages"
  shows "None \<notin> set (processedMessages (run cfg s es))
         \<and> length (processedMessages (run cfg s es)) \<le> maxMessages"
  using assms
proof (induction es arbitrary: s)
  case Nil
  then show ?case by simp
next
  case (Cons x es)
  from Cons.prems have "numeric_timestamp x" "list_all numeric_timestamp es" by simp_all
  from step_window_bound [OF this(1) Cons.prems(2,3), of cfg] Cons.IH [OF this(2)]
  show ?case by simp
qed

text \<open>
  In every run of the trigger in which each frame with an envelope has a number as its
  timestamp, the window never holds more than \<open>maxMessages = 1000\<close> keys.
\<close>

lemma window_bound_with_numeric_timestamps:
  assumes "list_all numeric_timestamp es"
  shows "length (processedMessages (run cfg (trigger cfg) es)) \<le> maxMessages
         \<and> maxMessages = 1000"
  using run_window_bound [OF assms, of "trigger cfg" cfg]
  by (simp add: trigger_def initial_def maxMessages_def)

text \<open>
  C6 at a frame without a timestamp. Once the key \<^verbatim>\<open>undefined\<close> is in the window,
  \<^verbatim>\<open>Math.min\<close> answers NaN and \<^verbatim>\<open>delete\<close> removes nothing, so the eviction of
  lines 112 to 115 no longer keeps the bound: a thousand further timestamps bring the
  window to 1001 keys.
\<close>

theorem C6_undefined_key_defeats_eviction:
  "length (processedMessages (run default_config (trigger default_config)
      undefined_then_thousand)) = 1001
   \<and> \<not> length (processedMessages (run default_config (trigger default_config)
      undefined_then_thousand)) \<le> maxMessages"
proof -
  let ?s1 = "run default_config (trigger default_config)
               [Opened 0, Frame 0 (Parsed (text_message None ''hi''))]"
  have s1: "processedMessages ?s1 = [None]" "socket_is ?s1 0 OPEN"
    by (simp_all add: handler_defs sample_defs window_defs)
  have "processedMessages (run default_config ?s1 (frames 0 thousand_messages))
          = processedMessages ?s1 @ map Some [1..1000]
        \<and> socket_is (run default_config ?s1 (frames 0 thousand_messages)) 0 OPEN"
    by (rule run_frames_window)
       (simp_all add: thousand_messages_def carries_text_messages s1 del: run_Cons run_Nil)
  then have "length (processedMessages (run default_config ?s1 (frames 0 thousand_messages)))
               = 1001"
    by (simp add: s1 del: run_Cons run_Nil)
  moreover have "run default_config (trigger default_config) undefined_then_thousand
                   = run default_config ?s1 (frames 0 thousand_messages)"
    by (simp add: undefined_then_thousand_def)
  ultimately show ?thesis by (simp add: maxMessages_def)
qed

subsection \<open>Two frames with one timestamp\<close>

text \<open>
  C4, as the code has it. On an open socket, two frames with the same numeric timestamp
  \<open>t\<close>, the first passing the filters, \<open>t\<close> not in the window, and the window
  either below its bound or holding a timestamp smaller than \<open>t\<close>: exactly one event is
  emitted, the first frame's, and the second frame is only logged as a duplicate.
\<close>

theorem C4_second_frame_is_a_duplicate:
  assumes "socket_is s c OPEN"
    and "msg_envelope m1 = Some e1" and "env_timestamp e1 = Some t"
    and "msg_envelope m2 = Some e2" and "env_timestamp e2 = Some t"
    and "passes cfg (make_processedMessage m1 e1)"
    and "Some t \<notin> set (processedMessages s)"
    and "length (processedMessages s) < maxMessages
         \<or> (\<exists>u. Some u \<in> set (processedMessages s) \<and> u < t)"
  shows "emitted (run cfg s [Frame c (Parsed m1), Frame c (Parsed m2)])
           = emitted s @ [make_processedMessage m1 e1]
         \<and> run cfg s [Frame c (Parsed m1), Frame c (Parsed m2)]
             = perform (LogDebug (DuplicateMessage (Some t))) (run cfg s [Frame c (Parsed m1)])"
proof -
  let ?s1 = "on_message cfg (Parsed m1) s"
  have r1: "run cfg s [Frame c (Parsed m1)] = ?s1"
    using assms(1) by (simp add: step_frame_enabled)
  have r2: "run cfg s [Frame c (Parsed m1), Frame c (Parsed m2)]
              = on_message cfg (Parsed m2) ?s1"
    using assms(1) by (simp add: step_frame_enabled)
  have w1: "processedMessages ?s1 = record_timestamp (processedMessages s) (Some t)"
    using assms(2,3,7) by (simp add: on_message_window Set_has_def)
  have e1: "emitted ?s1 = emitted s @ [make_processedMessage m1 e1]"
    using assms(2,3,6,7) by (simp add: on_message_emitted Set_has_def)
  have "Some t \<in> set (processedMessages ?s1)"
    unfolding w1 by (rule record_timestamp_keeps [OF assms(8)])
  then have dup: "on_message cfg (Parsed m2) ?s1
                    = perform (LogDebug (DuplicateMessage (Some t))) ?s1"
    using on_message_duplicate [OF assms(4), of ?s1 cfg] assms(5) by simp
  show ?thesis
    unfolding r2 r1 dup using e1 by simp
qed

theorem C4_second_frame_is_a_duplicate_witness:
  "socket_is connected 0 OPEN
   \<and> msg_envelope (text_message (Some 1000) ''hi'') = Some (text_envelope (Some 1000) ''hi'')
   \<and> env_timestamp (text_envelope (Some 1000) ''hi'') = Some 1000
   \<and> passes default_config
       (make_processedMessage (text_message (Some 1000) ''hi'')
          (text_envelope (Some 1000) ''hi''))
   \<and> Some 1000 \<notin> set (processedMessages connected)
   \<and> length (processedMessages connected) < maxMessages
   \<and> emitted (run default_config connected
        [Frame 0 (Parsed (text_message (Some 1000) ''hi'')),
         Frame 0 (Parsed (text_message (Some 1000) ''hi''))])
       = [make_processedMessage (text_message (Some 1000) ''hi'')
            (text_envelope (Some 1000) ''hi'')]"
proof -
  have h: "msg_envelope (text_message (Some 1000) ''hi'')
             = Some (text_envelope (Some 1000) ''hi'')"
    "env_timestamp (text_envelope (Some 1000) ''hi'') = Some 1000"
    by (simp_all add: text_message_def text_envelope_def blank_envelope_def)
  have p: "passes default_config
       (make_processedMessage (text_message (Some 1000) ''hi'')
          (text_envelope (Some 1000) ''hi''))"
    by (simp add: sample_defs filter_defs)
  have f: "Some 1000 \<notin> set (processedMessages connected)"
    "length (processedMessages connected) < maxMessages"
    by (simp_all add: connected_fields maxMessages_def)
  from C4_second_frame_is_a_duplicate
    [OF connected_fields(2) h h p f(1) disjI1 [OF f(2)], THEN conjunct1]
  show ?thesis using h p f connected_fields(2,3) by (simp del: run_Cons run_Nil)
qed

text \<open>
  C4 as the specification words it fails: with a full window whose timestamps are all
  greater than \<open>t\<close>, the new key \<open>t\<close> is the minimum and is evicted at once, so the
  second frame with \<open>t\<close> is emitted as well.
\<close>

theorem C4_counterexample:
  "socket_is full_window 0 OPEN
   \<and> Some 0 \<notin> set (processedMessages full_window)
   \<and> emitted (run default_config full_window
        [Frame 0 (Parsed (text_message (Some 0) ''hi'')),
         Frame 0 (Parsed (text_message (Some 0) ''hi''))])
       = emitted full_window
         @ [make_processedMessage (text_message (Some 0) ''hi'') (text_envelope (Some 0) ''hi''),
            make_processedMessage (text_message (Some 0) ''hi'') (text_envelope (Some 0) ''hi'')]"
proof -
  let ?m = "text_message (Some 0) ''hi''"
  let ?e = "text_envelope (Some 0) ''hi''"
  let ?s1 = "on_message default_config (Parsed ?m) full_window"
  have h: "msg_envelope ?m = Some ?e" "env_timestamp ?e = Some 0"
    by (simp_all add: text_message_def text_envelope_def)
  have p: "passes default_config (make_processedMessage ?m ?e)"
    by (simp add: sample_defs filter_defs)
  have fresh: "Some 0 \<notin> set (processedMessages full_window)"
    by (auto simp: full_window_fields)
  have same: "record_timestamp (processedMessages full_window) (Some 0)
                = processedMessages full_window"
    by (rule record_timestamp_evicts_self) (auto simp: full_window_fields maxMessages_def)
  have w1: "processedMessages ?s1 = processedMessages full_window"
    using h fresh same by (simp add: on_message_window Set_has_def)
  have e1: "emitted ?s1 = emitted full_window @ [make_processedMessage ?m ?e]"
    using h fresh p by (simp add: on_message_emitted Set_has_def)
  have e2: "emitted (on_message default_config (Parsed ?m) ?s1)
              = emitted ?s1 @ [make_processedMessage ?m ?e]"
    using h fresh p w1 by (simp add: on_message_emitted Set_has_def)
  have "run default_config full_window [Frame 0 (Parsed ?m), Frame 0 (Parsed ?m)]
          = on_message default_config (Parsed ?m) ?s1"
    using full_window_fields(2) by (simp add: step_frame_enabled)
  with e1 e2 fresh full_window_fields(2) show ?thesis by simp
qed

end
